theory Spec2Isabelle
  imports Main "HOL-Library.AList"
begin

section \<open>JavaScript values\<close>

text \<open>
  The values that cross the connection class: what \<open>JSON.parse\<close> returns, the error objects
  handed to callbacks, and \<open>undefined\<close> for a property that is not there. Numbers are the
  integers the protocol carries (counts and millisecond clocks).
\<close>

datatype jsval =
    Undefined
  | Null
  | Bool bool
  | Num int
  | Str string
  | Arr "jsval list"
  | Obj "(string \<times> jsval) list"

datatype error = TypeError | ReferenceError | LoginTableError

text \<open>
  Property read \<open>v.k\<close> for the property names the class reads (\<open>type\<close>, \<open>msg\<close>, \<open>count\<close>,
  \<open>time\<close>, \<open>reply\<close>, \<open>err\<close>, \<open>random\<close>): an object yields its own property or \<open>undefined\<close>;
  a boolean, number, string or array has none of these names and yields \<open>undefined\<close>.
\<close>

fun field :: "jsval \<Rightarrow> string \<Rightarrow> jsval" where
  "field (Obj fs) k = (case map_of fs k of Some v \<Rightarrow> v | None \<Rightarrow> Undefined)"
| "field v k = Undefined"

text \<open>Reading a property of \<open>null\<close> or \<open>undefined\<close> throws a TypeError.\<close>

definition getProp :: "jsval \<Rightarrow> string \<Rightarrow> error + jsval" where
  "getProp v k = (if v = Undefined \<or> v = Null then Inl TypeError else Inr (field v k))"

section \<open>Decimal rendering of the clock\<close>

text \<open>\<open>Date.now().toString()\<close>: the decimal digits of an integer, with a minus sign below zero.\<close>

definition digitChar :: "nat \<Rightarrow> char" where
  "digitChar d = ''0123456789'' ! d"

fun toString_nat :: "nat \<Rightarrow> string" where
  "toString_nat n =
     (if n < 10 then [digitChar n] else toString_nat (n div 10) @ [digitChar (n mod 10)])"

declare toString_nat.simps [simp del]

definition toString :: "int \<Rightarrow> string" where
  "toString i = (if i < 0 then CHR ''-'' # toString_nat (nat (- i)) else toString_nat (nat i))"

section \<open>Message ids\<close>

text \<open>\<open>_nextMsgId\<close>: \<open>'challenge' + this.loginName + Date.now().toString()\<close>.\<close>

definition nextMsgId :: "string \<Rightarrow> int \<Rightarrow> string" where
  "nextMsgId loginName now = ''challenge'' @ loginName @ toString now"

section \<open>The connection and its environment\<close>

text \<open>
  A completion callback is a closure over the \<open>resolve\<close>/\<open>reject\<close> pair of one promise; the
  number names that promise. \<open>LoginCb\<close> is the arrow function of \<open>login\<close>, \<open>CountCb\<close> the one of
  \<open>getRequestCount\<close>, \<open>TimeCb\<close> the one of \<open>getTime\<close>.
\<close>

datatype handler = LoginCb nat | CountCb nat | TimeCb nat

datatype settlement = Resolved jsval | Rejected jsval

text \<open>Log lines by class of message; a line carries the fixed text of its template.\<close>

datatype logline = LogGeneral string | LogSent string | LogReceived string | LogError string

text \<open>A row of the pending request table: \<open>[id, type, callback, time]\<close>.\<close>

record entry =
  reqId :: string
  reqType :: string
  reqCallback :: handler
  reqTime :: int

text \<open>
  What \<open>_sendServerReq\<close> leaves behind for later. A job is a promise reaction waiting to run
  once the current block of code has ended: the \<open>then\<close> branch of a request (with its
  request object, type and callback) or the \<open>catch\<close> branch (with the callback and the
  error it will receive). A poller is the one-second interval of a readiness check started
  during a reset, with the request it holds back and whether its promise has been settled.
\<close>

datatype job =
    ThenJob "(string \<times> jsval) list" string handler
  | CatchJob handler jsval

datatype poller = Poller "(string \<times> jsval) list" string handler bool

text \<open>
  The fields of \<open>ChallengeConnection\<close>, followed by the environment its methods act on:
  the alarms set by \<open>setTimeout\<close> and not yet fired or cleared (handle and due time), the
  counters that name fresh sockets, alarms and promises, the settled promises, every
  callback invocation in order, the objects written to the socket, the log, the promise
  reactions not yet run and the intervals of the readiness checks.
\<close>

record conn =
  connPort :: int
  connIp :: string
  loggedIn :: bool
  reset :: bool
  loginName :: string
  socket :: "nat option"
  heartbeatTimer :: "nat option"
  pendingReq :: "entry list"
  timers :: "(nat \<times> int) list"
  nextTimer :: nat
  nextSocket :: nat
  nextPromise :: nat
  settled :: "(nat \<times> settlement) list"
  calls :: "(handler \<times> jsval) list"
  sent :: "jsval list"
  logs :: "logline list"
  jobs :: "job list"
  polls :: "poller list"

text \<open>The constructor: no socket, no alarm, an empty table.\<close>

definition newConn :: "int \<Rightarrow> string \<Rightarrow> conn" where
  "newConn port ip =
     \<lparr> connPort = port, connIp = ip, loggedIn = False, reset = False, loginName = [],
       socket = None, heartbeatTimer = None, pendingReq = [],
       timers = [], nextTimer = 0, nextSocket = 0, nextPromise = 0,
       settled = [], calls = [], sent = [], logs = [], jobs = [], polls = [] \<rparr>"

definition msgType :: "string list" where
  "msgType = [''welcome'', ''heartbeat'', ''msg'', ''count'', ''time'']"

definition typLogin :: nat where "typLogin = 0"
definition typHeartbeat :: nat where "typHeartbeat = 1"
definition typMsg :: nat where "typMsg = 2"
definition typCount :: nat where "typCount = 3"
definition typTime :: nat where "typTime = 4"

definition logMsg :: "string \<Rightarrow> conn \<Rightarrow> conn" where
  "logMsg m c = c\<lparr>logs := logs c @ [LogGeneral m]\<rparr>"

definition logSent :: "string \<Rightarrow> conn \<Rightarrow> conn" where
  "logSent m c = c\<lparr>logs := logs c @ [LogSent m]\<rparr>"

definition logReceived :: "string \<Rightarrow> conn \<Rightarrow> conn" where
  "logReceived m c = c\<lparr>logs := logs c @ [LogReceived m]\<rparr>"

definition logError :: "string \<Rightarrow> conn \<Rightarrow> conn" where
  "logError m c = c\<lparr>logs := logs c @ [LogError m]\<rparr>"

text \<open>A promise settles once: a later \<open>resolve\<close> or \<open>reject\<close> of the same promise does nothing.\<close>

definition settle :: "nat \<Rightarrow> settlement \<Rightarrow> conn \<Rightarrow> conn" where
  "settle p s c =
     (case map_of (settled c) p of
        Some _ \<Rightarrow> c
      | None \<Rightarrow> c\<lparr>settled := settled c @ [(p, s)]\<rparr>)"

text \<open>\<open>setTimeout\<close> at clock \<open>now\<close> and \<open>clearTimeout\<close>.\<close>

definition setTimeout :: "int \<Rightarrow> int \<Rightarrow> conn \<Rightarrow> nat \<times> conn" where
  "setTimeout delay now c =
     (nextTimer c,
      c\<lparr>timers := timers c @ [(nextTimer c, now + delay)], nextTimer := Suc (nextTimer c)\<rparr>)"

definition clearTimeout :: "nat \<Rightarrow> conn \<Rightarrow> conn" where
  "clearTimeout t c = c\<lparr>timers := filter (\<lambda>a. fst a \<noteq> t) (timers c)\<rparr>"

text \<open>\<open>splice(ndx, 1)\<close>: the list without the element at \<open>ndx\<close>.\<close>

definition splice1 :: "nat \<Rightarrow> 'a list \<Rightarrow> 'a list" where
  "splice1 ndx xs = take ndx xs @ drop (Suc ndx) xs"

section \<open>Completion callbacks\<close>

text \<open>
  The three arrow functions. The login callback rejects on an error and then goes on (there
  is no return after \<open>reject\<close>): it marks the connection logged in and resolves. The count and
  time callbacks resolve when \<open>response.err\<close> is undefined or null and reject otherwise; the
  time callback reads the number from \<open>response.random\<close>. Every call site passes an object.
\<close>

fun invokeCb :: "handler \<Rightarrow> jsval \<Rightarrow> conn \<Rightarrow> conn" where
  "invokeCb (LoginCb p) err c =
     (let c1 = c\<lparr>calls := calls c @ [(LoginCb p, err)]\<rparr>;
          c2 = (if err \<noteq> Null \<and> err \<noteq> Undefined then settle p (Rejected err) c1 else c1);
          c3 = logMsg ''Logged in to server'' c2;
          c4 = c3\<lparr>loginName := ''coder1'', loggedIn := True, reset := False\<rparr>
      in settle p (Resolved (Obj [(''err'', Null),
            (''results'', Obj [(''ip'', Str (connIp c4)), (''port'', Num (connPort c4)),
                               (''loggedIn'', Bool (loggedIn c4))])])) c4)"
| "invokeCb (CountCb p) response c =
     (let c1 = c\<lparr>calls := calls c @ [(CountCb p, response)]\<rparr> in
      if field response ''err'' = Undefined \<or> field response ''err'' = Null
      then settle p (Resolved (Obj [(''count'', field response ''count'')]))
             (logMsg ''Count response received'' c1)
      else settle p (Rejected (Obj [(''err'', field response ''err'')]))
             (logError ''Request error'' c1))"
| "invokeCb (TimeCb p) response c =
     (let c1 = c\<lparr>calls := calls c @ [(TimeCb p, response)]\<rparr> in
      if field response ''err'' = Undefined \<or> field response ''err'' = Null
      then settle p (Resolved (Obj [(''time'', field response ''time''),
                                    (''number'', field response ''random'')]))
             (logMsg ''Time response received'' c1)
      else settle p (Rejected (Obj [(''err'', field response ''err'')]))
             (logError ''Request error'' c1))"

section \<open>Login, logout and requests\<close>

text \<open>\<open>_sendLoginReq\<close>: push the login row (empty id) and write \<open>{name: user}\<close>.\<close>

definition sendLoginReq :: "string \<Rightarrow> handler \<Rightarrow> int \<Rightarrow> conn \<Rightarrow> conn" where
  "sendLoginReq user callback now c =
     (let c1 = c\<lparr>pendingReq := pendingReq c @
                  [\<lparr>reqId = [], reqType = msgType ! typLogin, reqCallback = callback,
                    reqTime = now\<rparr>]\<rparr>;
          c2 = logMsg ''Pending login request info pushed'' c1;
          c3 = c2\<lparr>sent := sent c2 @ [Obj [(''name'', Str user)]]\<rparr>
      in logSent ''name'' c3)"

text \<open>
  \<open>login\<close>: a new promise and a new socket, the table cleared, the login request sent, and
  a 2000 ms alarm stored in \<open>_heartbeatTimer\<close>. Nothing clears the alarm stored before.
\<close>

definition login :: "int \<Rightarrow> conn \<Rightarrow> conn" where
  "login now c =
     (let p = nextPromise c;
          c1 = c\<lparr>nextPromise := Suc p, socket := Some (nextSocket c),
                 nextSocket := Suc (nextSocket c)\<rparr>;
          c2 = logMsg ''Connected to server'' c1;
          c3 = c2\<lparr>pendingReq := []\<rparr>;
          c4 = sendLoginReq ''coder1'' (LoginCb p) now c3;
          tc = setTimeout 2000 now c4
      in (snd tc)\<lparr>heartbeatTimer := Some (fst tc)\<rparr>)"

text \<open>
  \<open>logout\<close>: the socket destroyed when there is one, the name, the flag and the table
  cleared, the promise resolved. The alarm is left as it is.
\<close>

definition logout :: "conn \<Rightarrow> conn" where
  "logout c =
     (let p = nextPromise c;
          c1 = c\<lparr>nextPromise := Suc p, socket := None\<rparr>;
          c2 = c1\<lparr>loginName := [], loggedIn := False, pendingReq := []\<rparr>
      in settle p (Resolved (Obj [(''err'', Null),
            (''results'', Obj [(''ip'', Str (connIp c2)), (''port'', Num (connPort c2)),
                               (''loggedIn'', Bool (loggedIn c2))])])) c2)"

text \<open>
  \<open>_chkServerLogin\<close>. The promise's executor settles at once when the connection is logged
  in, or when it is neither logged in nor resetting. During a reset it starts a one-second
  interval whose callback resolves when \<open>this.loggedIn\<close> is true and otherwise evaluates
  \<open>--i\<close>. The callback's scope holds \<open>retry\<close> (set to 5) and \<open>timer\<close>; \<open>scope\<close> is that
  variable environment, and a name it does not bind is a ReferenceError. \<open>ticks\<close> lists the
  value of \<open>this.loggedIn\<close> at each run of the interval callback; the outcome is that of
  the first run that settles the promise or throws, and \<open>ChkPending\<close> when none has.
\<close>

datatype chkOutcome = ChkResolved | ChkRejected jsval | ChkThrew error | ChkPending

fun chkPoll :: "(string \<times> int) list \<Rightarrow> bool list \<Rightarrow> chkOutcome" where
  "chkPoll scope [] = ChkPending"
| "chkPoll scope (li # ticks) =
     (if li then ChkResolved
      else (case map_of scope ''i'' of
              None \<Rightarrow> ChkThrew ReferenceError
            | Some v \<Rightarrow>
                if v - 1 \<le> 0 then ChkRejected (Obj [(''err'', Str ''Server reset error!'')])
                else chkPoll (AList.update ''i'' (v - 1) scope) ticks))"

definition chkServerLogin :: "conn \<Rightarrow> bool list \<Rightarrow> chkOutcome" where
  "chkServerLogin c ticks =
     (if loggedIn c then ChkResolved
      else if reset c then chkPoll [(''retry'', 5)] ticks
      else ChkRejected (Obj [(''err'', Str ''Not logged into server!'')]))"

text \<open>
  \<open>_sendServerReq\<close>, at the call. \<open>this._chkServerLogin()\<close> runs its executor at once, and
  its three branches are those of \<open>chkServerLogin\<close> before any poll: logged in, the promise
  is resolved and the \<open>then\<close> branch becomes a job; resetting, the interval is started and
  the request waits for a poll; neither, the promise is rejected and the \<open>catch\<close> branch
  becomes a job that hands the rejection to the callback. Nothing is pushed or written
  at the call.
\<close>

definition sendServerReq ::
  "(string \<times> jsval) list \<Rightarrow> string \<Rightarrow> handler \<Rightarrow> conn \<Rightarrow> conn" where
  "sendServerReq req type callback c =
     (if loggedIn c then c\<lparr>jobs := jobs c @ [ThenJob req type callback]\<rparr>
      else if reset c then c\<lparr>polls := polls c @ [Poller req type callback False]\<rparr>
      else c\<lparr>jobs := jobs c @
                [CatchJob callback (Obj [(''err'', Str ''Not logged into server!'')])]\<rparr>)"

definition getRequestCount :: "conn \<Rightarrow> conn" where
  "getRequestCount c =
     sendServerReq [(''request'', Str ''count'')] (msgType ! typCount) (CountCb (nextPromise c))
       (c\<lparr>nextPromise := Suc (nextPromise c)\<rparr>)"

definition getTime :: "conn \<Rightarrow> conn" where
  "getTime c =
     sendServerReq [(''request'', Str ''time'')] (msgType ! typTime) (TimeCb (nextPromise c))
       (c\<lparr>nextPromise := Suc (nextPromise c)\<rparr>)"

text \<open>
  The \<open>then\<close> branch of \<open>_sendServerReq\<close>, run as a job. It reads the clock twice: \<open>idNow\<close>
  inside \<open>_nextMsgId\<close>, together with the login name as it is at that moment, and \<open>pushNow\<close>
  for the time of the row it pushes. Then it writes the request; with no socket the write
  throws inside the branch, and the \<open>catch\<close> branch becomes a job that hands the error
  object to the callback.
\<close>

definition thenBranch ::
  "(string \<times> jsval) list \<Rightarrow> string \<Rightarrow> handler \<Rightarrow> int \<Rightarrow> int \<Rightarrow> conn \<Rightarrow> conn" where
  "thenBranch req type callback idNow pushNow c =
     (let msgId = nextMsgId (loginName c) idNow;
          c1 = c\<lparr>pendingReq := pendingReq c @
                  [\<lparr>reqId = msgId, reqType = type, reqCallback = callback,
                    reqTime = pushNow\<rparr>]\<rparr>;
          c2 = logMsg ''Pending request info pushed'' c1
      in case socket c2 of
           None \<Rightarrow>
             c2\<lparr>jobs := jobs c2 @ [CatchJob callback (Obj [(''message'', Str ''TypeError'')])]\<rparr>
         | Some s \<Rightarrow>
             logSent ''request''
               (c2\<lparr>sent := sent c2 @ [Obj (AList.update ''id'' (Str msgId) req)]\<rparr>))"

text \<open>
  The job at place \<open>k\<close> runs and leaves the list of jobs: a \<open>then\<close> branch with its two
  clock readings, or a \<open>catch\<close> branch, which calls the callback with the error.
\<close>

definition runJob :: "nat \<Rightarrow> int \<Rightarrow> int \<Rightarrow> conn \<Rightarrow> conn" where
  "runJob k idNow pushNow c =
     (if k < length (jobs c) then
        (let c1 = c\<lparr>jobs := splice1 k (jobs c)\<rparr> in
         case jobs c ! k of
           ThenJob req type callback \<Rightarrow> thenBranch req type callback idNow pushNow c1
         | CatchJob callback err \<Rightarrow> invokeCb callback err c1)
      else c)"

section \<open>The pending request table\<close>

text \<open>
  \<open>_getMsgId\<close>: the \<open>reply\<close> property when it is a string whose first nine characters are
  \<open>challenge\<close>, else null (here \<open>None\<close>) with an error line. Its callers have already read
  \<open>msg.count\<close> of the same value, so \<open>msg\<close> is neither null nor undefined.
\<close>

definition getMsgId :: "jsval \<Rightarrow> conn \<Rightarrow> string option \<times> conn" where
  "getMsgId msg c =
     (case field msg ''reply'' of
        Str r \<Rightarrow>
          if take 9 r \<noteq> ''challenge''
          then (None, logError ''Message received with invalid or no message id'' c)
          else (Some r, c)
      | _ \<Rightarrow> (None, logError ''Message received with invalid or no message id'' c))"

text \<open>
  \<open>_getPendingReq\<close>: the callback of the first row whose id equals \<open>id\<close>, with that row
  spliced out; null (\<open>None\<close>) and the table as it was when no row matches.
\<close>

fun getPendingReq :: "string \<Rightarrow> entry list \<Rightarrow> handler option \<times> entry list" where
  "getPendingReq ident [] = (None, [])"
| "getPendingReq ident (e # es) =
     (if reqId e = ident then (Some (reqCallback e), es)
      else (case getPendingReq ident es of (r, es') \<Rightarrow> (r, e # es')))"

definition timeoutErr :: "entry \<Rightarrow> jsval" where
  "timeoutErr e =
     Obj [(''err'', Str (''Request timeout error - request type: '' @ reqType e @
                         '', request time: '' @ toString (reqTime e)))]"

definition resetErr :: "entry \<Rightarrow> jsval" where
  "resetErr e =
     Obj [(''err'', Str (''Server reset error - request type: '' @ reqType e @
                         '', request time: '' @ toString (reqTime e)))]"

text \<open>
  \<open>_chkPendingReq\<close>. \<open>forEach\<close> reads the length once and then visits the indices
  \<open>0 .. length - 1\<close> of the live array, skipping an index that is no longer there. The callback
  splices the row at the visited index out of that same array when its age exceeds 5000 ms
  and calls the row's callback with a timeout error. \<open>chkLoop n ndx\<close> is the visit of index
  \<open>ndx\<close> with \<open>n\<close> indices left to visit.
\<close>

fun chkLoop :: "nat \<Rightarrow> nat \<Rightarrow> int \<Rightarrow> conn \<Rightarrow> conn" where
  "chkLoop 0 ndx timestamp c = c"
| "chkLoop (Suc n) ndx timestamp c =
     (if ndx < length (pendingReq c) then
        (let req = pendingReq c ! ndx in
         if timestamp - reqTime req > 5000 then
           (let c1 = c\<lparr>pendingReq := splice1 ndx (pendingReq c)\<rparr>
            in chkLoop n (Suc ndx) timestamp (invokeCb (reqCallback req) (timeoutErr req) c1))
         else chkLoop n (Suc ndx) timestamp c)
      else chkLoop n (Suc ndx) timestamp c)"

definition chkPendingReq :: "int \<Rightarrow> conn \<Rightarrow> conn" where
  "chkPendingReq timestamp c = chkLoop (length (pendingReq c)) 0 timestamp c"

section \<open>Reset\<close>

text \<open>
  The \<open>forEach\<close> of \<open>_resetConnection\<close>: every row that is not a login row has its callback
  called with a reset error. No row is spliced and no callback touches the table, so the
  visit is over the rows as they stand.
\<close>

fun resetNotify :: "entry list \<Rightarrow> conn \<Rightarrow> conn" where
  "resetNotify [] c = c"
| "resetNotify (req # rest) c =
     resetNotify rest
       (if reqType req \<noteq> msgType ! typLogin then invokeCb (reqCallback req) (resetErr req) c
        else c)"

text \<open>A method either returns or throws; both leave a connection state behind.\<close>

datatype outcome = Returned conn | Threw error conn

fun after :: "outcome \<Rightarrow> conn" where
  "after (Returned c) = c"
| "after (Threw e c) = c"

text \<open>
  \<open>_resetConnection\<close>: flags set, callbacks notified, the socket destroyed (a TypeError when
  \<open>this._socket\<close> is null), then \<open>login\<close>, which clears the table and pushes a new login row.
\<close>

definition resetConnection :: "int \<Rightarrow> conn \<Rightarrow> outcome" where
  "resetConnection now c =
     (let c1 = logMsg ''Resetting Server Connection'' c;
          c2 = c1\<lparr>loggedIn := False, reset := True\<rparr>;
          c3 = resetNotify (pendingReq c2) c2
      in case socket c3 of
           None \<Rightarrow> Threw TypeError c3
         | Some s \<Rightarrow> Returned (login now (c3\<lparr>socket := None\<rparr>)))"

text \<open>The alarm \<open>t\<close> falls due: it leaves the outstanding alarms and runs the reset.\<close>

definition fireTimer :: "nat \<Rightarrow> int \<Rightarrow> conn \<Rightarrow> outcome" where
  "fireTimer t now c =
     (if t \<in> fst ` set (timers c) then resetConnection now (clearTimeout t c)
      else Returned c)"

text \<open>
  One run of the interval callback of the poller at place \<open>k\<close>: \<open>chkPoll\<close> for this one
  poll, in the scope that holds \<open>retry\<close> alone. Seeing \<open>this.loggedIn\<close> true it resolves the
  promise, and the first time this happens the \<open>then\<close> branch becomes a job; the interval is
  not cleared, so later polls run the callback again. Otherwise it evaluates \<open>--i\<close>, which
  throws here. (Were \<open>i\<close> bound, running out of retries would clear the interval and reject,
  and the \<open>catch\<close> branch would become a job.)
\<close>

definition pollTick :: "nat \<Rightarrow> conn \<Rightarrow> outcome" where
  "pollTick k c =
     (if k < length (polls c) then
        (case polls c ! k of
           Poller req type callback done \<Rightarrow>
             (case chkPoll [(''retry'', 5)] [loggedIn c] of
                ChkResolved \<Rightarrow>
                  Returned (if done then c
                            else c\<lparr>polls := (polls c)[k := Poller req type callback True],
                                   jobs := jobs c @ [ThenJob req type callback]\<rparr>)
              | ChkRejected err \<Rightarrow>
                  Returned (c\<lparr>polls := splice1 k (polls c),
                              jobs := (if done then jobs c
                                       else jobs c @ [CatchJob callback err])\<rparr>)
              | ChkThrew e \<Rightarrow> Threw e c
              | ChkPending \<Rightarrow> Returned c))
      else Returned c)"

section \<open>Inbound messages\<close>

text \<open>
  \<open>_handleLoginMsg\<close>: throws unless the table holds exactly one row and it is a login row;
  otherwise calls that row's callback with null (every row is pushed with a callback, so
  the branch for a missing one is never taken). The row stays in the table.
\<close>

definition handleLoginMsg :: "jsval \<Rightarrow> conn \<Rightarrow> outcome" where
  "handleLoginMsg msg c =
     (case pendingReq c of
        [e] \<Rightarrow>
          if reqType e \<noteq> msgType ! typLogin
          then Threw LoginTableError (logError ''Invalid pending request table on login'' c)
          else Returned (invokeCb (reqCallback e) Null c)
      | _ \<Rightarrow> Threw LoginTableError (logError ''Invalid pending request table on login'' c))"

text \<open>
  \<open>_handleHeartbeat\<close>: nothing without an alarm handle; otherwise the alarm is cleared, a
  new 2000 ms alarm is set, and the table is checked for timed-out rows.
\<close>

definition handleHeartbeat :: "int \<Rightarrow> conn \<Rightarrow> conn" where
  "handleHeartbeat pulse c =
     (case heartbeatTimer c of
        None \<Rightarrow> c
      | Some t \<Rightarrow>
          (let tc = setTimeout 2000 pulse (clearTimeout t c);
               c1 = (snd tc)\<lparr>heartbeatTimer := Some (fst tc)\<rparr>
           in chkPendingReq pulse c1))"

text \<open>\<open>_handleCountMsg\<close> and \<open>_handleTimeMsg\<close>.\<close>

definition handleCountMsg :: "jsval \<Rightarrow> conn \<Rightarrow> conn" where
  "handleCountMsg msg c =
     (case getMsgId msg c of
        (None, c1) \<Rightarrow> logError ''Count message received with invalid or no message id'' c1
      | (Some msgId, c1) \<Rightarrow>
          (case getPendingReq msgId (pendingReq c1) of
             (Some req, tbl) \<Rightarrow>
               invokeCb req msg
                 (logMsg ''Pending request found for count response''
                    (c1\<lparr>pendingReq := tbl\<rparr>))
           | (None, tbl) \<Rightarrow> logError ''No matching count request found for response'' c1))"

definition handleTimeMsg :: "jsval \<Rightarrow> conn \<Rightarrow> conn" where
  "handleTimeMsg msg c =
     (case getMsgId msg c of
        (None, c1) \<Rightarrow> logError ''Time message received with invalid or no message id'' c1
      | (Some msgId, c1) \<Rightarrow>
          (case getPendingReq msgId (pendingReq c1) of
             (Some req, tbl) \<Rightarrow>
               invokeCb req msg
                 (logMsg ''Pending request found for time response''
                    (c1\<lparr>pendingReq := tbl\<rparr>))
           | (None, tbl) \<Rightarrow> logError ''No matching time request found for response'' c1))"

text \<open>
  The body of the \<open>for\<close> loop of \<open>_handleServerMsg\<close> for one parsed message: an error line
  when \<open>msg.type\<close> is not a string, then the \<open>switch\<close>. Reading \<open>msg.type\<close> of null and reading
  \<open>response.count\<close> of a missing or null \<open>msg.msg\<close> throw.
\<close>

definition isStr :: "jsval \<Rightarrow> bool" where
  "isStr v = (case v of Str _ \<Rightarrow> True | _ \<Rightarrow> False)"

definition handleOne :: "jsval \<Rightarrow> int \<Rightarrow> conn \<Rightarrow> outcome" where
  "handleOne msg now c =
     (case getProp msg ''type'' of
        Inl e \<Rightarrow> Threw e c
      | Inr ty \<Rightarrow>
          (let c1 = (if \<not> isStr ty
                     then logError ''Message received with invalid or no message type'' c
                     else c)
           in if ty = Str (msgType ! typLogin) then handleLoginMsg msg c1
              else if ty = Str (msgType ! typHeartbeat) then Returned (handleHeartbeat now c1)
              else if ty = Str (msgType ! typMsg) then
                (let response = field msg ''msg'' in
                 case getProp response ''count'' of
                   Inl e \<Rightarrow> Threw e c1
                 | Inr cnt \<Rightarrow>
                     if cnt \<noteq> Undefined then Returned (handleCountMsg response c1)
                     else if field response ''time'' \<noteq> Undefined
                     then Returned (handleTimeMsg response c1)
                     else Returned (logError ''Unrecognized message encountered'' c1))
              else Returned (logError ''Unrecognized message encountered'' c1)))"

text \<open>The \<open>for\<close> loop over the parsed messages: a throw ends it.\<close>

fun handleMsgs :: "jsval list \<Rightarrow> int \<Rightarrow> conn \<Rightarrow> outcome" where
  "handleMsgs [] now c = Returned c"
| "handleMsgs (msg # rest) now c =
     (case handleOne msg now c of
        Returned c1 \<Rightarrow> handleMsgs rest now c1
      | Threw e c1 \<Rightarrow> Threw e c1)"

section \<open>The frame decoder\<close>

text \<open>
  \<open>split('\n')\<close>: the pieces between line feeds, one more piece than there are line feeds.
  \<open>splitFrom piece\<close> scans the rest of the buffer with \<open>piece\<close> read so far.
\<close>

fun splitFrom :: "string \<Rightarrow> string \<Rightarrow> string list" where
  "splitFrom piece [] = [piece]"
| "splitFrom piece (ch # rest) =
     (if ch = CHR 0x0A then piece # splitFrom [] rest else splitFrom (piece @ [ch]) rest)"

definition split_nl :: "string \<Rightarrow> string list" where
  "split_nl buffer = splitFrom [] buffer"

text \<open>\<open>trim()\<close> over the white space and line terminators among the characters below U+0100.\<close>

definition isWhite :: "char \<Rightarrow> bool" where
  "isWhite ch = (ch \<in> set [CHR 0x09, CHR 0x0A, CHR 0x0B, CHR 0x0C, CHR 0x0D, CHR 0x20, CHR 0xA0])"

definition trim :: "string \<Rightarrow> string" where
  "trim s = rev (dropWhile isWhite (rev (dropWhile isWhite s)))"

text \<open>
  \<open>_parseRcvBuffer\<close>. \<open>jsonParse\<close> stands for \<open>JSON.parse\<close>, with \<open>None\<close> for its SyntaxError:
  a piece that is not blank is parsed and kept, or logged and dropped when it does not
  parse; the loop goes on to the next piece either way.
\<close>

fun parseLoop ::
  "(string \<Rightarrow> jsval option) \<Rightarrow> string list \<Rightarrow> jsval list \<Rightarrow> conn \<Rightarrow> jsval list \<times> conn" where
  "parseLoop jsonParse [] msgArray c = (msgArray, c)"
| "parseLoop jsonParse (msg # rest) msgArray c =
     (if length (trim msg) > 0 then
        (case jsonParse msg of
           Some v \<Rightarrow> parseLoop jsonParse rest (msgArray @ [v]) c
         | None \<Rightarrow>
             parseLoop jsonParse rest msgArray (logError ''Invalid non-JSON message format'' c))
      else parseLoop jsonParse rest msgArray c)"

definition parseRcvBuffer ::
  "(string \<Rightarrow> jsval option) \<Rightarrow> string \<Rightarrow> conn \<Rightarrow> jsval list \<times> conn" where
  "parseRcvBuffer jsonParse buffer c = parseLoop jsonParse (split_nl buffer) [] c"

text \<open>\<open>_handleServerMsg\<close>: log the buffer, decode it, handle each message in turn.\<close>

definition handleServerMsg ::
  "(string \<Rightarrow> jsval option) \<Rightarrow> string \<Rightarrow> int \<Rightarrow> conn \<Rightarrow> outcome" where
  "handleServerMsg jsonParse buffer now c =
     (case parseRcvBuffer jsonParse buffer (logReceived buffer c) of
        (msgArray, c1) \<Rightarrow> handleMsgs msgArray now c1)"

section \<open>Runs of the client\<close>

text \<open>
  Concrete runs, with the clock in milliseconds: \<open>startup\<close> is a client that logged in at 0
  and received the server's welcome at 100; \<open>beat now\<close> is the arrival of one heartbeat
  message at \<open>now\<close>.
\<close>

definition welcomeMsg :: jsval where
  "welcomeMsg = Obj [(''type'', Str ''welcome'')]"

definition heartbeatMsg :: jsval where
  "heartbeatMsg = Obj [(''type'', Str ''heartbeat'')]"

definition startup :: conn where
  "startup = after (handleMsgs [welcomeMsg] 100 (login 0 (newConn 3001 ''127.0.0.1'')))"

definition beat :: "int \<Rightarrow> conn \<Rightarrow> conn" where
  "beat now c = after (handleMsgs [heartbeatMsg] now c)"

text \<open>
  \<open>connecting\<close> has sent its login and not yet heard from the server. \<open>countPending\<close> is
  \<open>startup\<close> after a call of \<open>getRequestCount\<close> whose \<open>then\<close> branch ran at 200 (both clock
  readings 200), \<open>timePending\<close> the same for \<open>getTime\<close>, and \<open>bothPending\<close> is
  \<open>countPending\<close> after a call of \<open>getTime\<close> whose \<open>then\<close> branch ran at 201. \<open>twoRequests\<close>
  is \<open>bothPending\<close> with the server never answering and heartbeats every 1500 ms.
  \<open>relogin\<close> logged out at once after \<open>startup\<close>, logged in again at 1000, was welcomed at
  1100 and received a heartbeat at 1500.
\<close>

definition connecting :: conn where
  "connecting = login 0 (newConn 3001 ''127.0.0.1'')"

definition countPending :: conn where
  "countPending = runJob 0 200 200 (getRequestCount startup)"

definition timePending :: conn where
  "timePending = runJob 0 200 200 (getTime startup)"

definition bothPending :: conn where
  "bothPending = runJob 0 201 201 (getTime countPending)"

definition twoRequests :: conn where
  "twoRequests = beat 4500 (beat 3000 (beat 1500 bothPending))"

definition relogin :: conn where
  "relogin = beat 1500 (after (handleMsgs [welcomeMsg] 1100 (login 1000 (logout startup))))"

text \<open>
  The text of a heartbeat record, \<open>{"type":"heartbeat"}\<close>, and a stand-in for \<open>JSON.parse\<close> that
  accepts that text alone.
\<close>

definition heartbeatText :: string where
  "heartbeatText =
     [CHR ''{'', CHR 0x22] @ ''type'' @ [CHR 0x22, CHR '':'', CHR 0x22] @ ''heartbeat'' @
     [CHR 0x22, CHR ''}'']"

definition onlyHeartbeat :: "string \<Rightarrow> jsval option" where
  "onlyHeartbeat s = (if s = heartbeatText then Some heartbeatMsg else None)"

section \<open>Runs as lists of events\<close>

text \<open>
  What can happen to a connection: the application calls \<open>login\<close>, \<open>logout\<close>,
  \<open>getRequestCount\<close> or \<open>getTime\<close>; a job runs, with the two clock readings of a \<open>then\<close>
  branch; the interval of a poller ticks; the socket delivers a chunk, given here by its
  decoded messages; an alarm falls due. Events carry the clock readings they take. A
  handler that throws ends there, and the run goes on from the state it left. Jobs may run
  at any later point of a run and in any order; the runs of the client, where the jobs
  run in order as soon as the current block of code has ended, are among these.
\<close>

datatype event =
    Login int
  | Logout
  | CountRequest
  | TimeRequest
  | RunJob nat int int
  | Poll nat
  | Data "jsval list" int
  | Alarm nat int

fun step :: "conn \<Rightarrow> event \<Rightarrow> conn" where
  "step c (Login now) = login now c"
| "step c Logout = logout c"
| "step c CountRequest = getRequestCount c"
| "step c TimeRequest = getTime c"
| "step c (RunJob k idNow pushNow) = runJob k idNow pushNow c"
| "step c (Poll k) = after (pollTick k c)"
| "step c (Data msgArray now) = after (handleMsgs msgArray now c)"
| "step c (Alarm t now) = after (fireTimer t now c)"

definition run :: "event list \<Rightarrow> conn \<Rightarrow> conn" where
  "run evs c = foldl step c evs"



text \<open>
  The login name is empty or \<open>coder1\<close>, and every request row carries a key made by one of
  the calls \<open>rs\<close> of \<open>_nextMsgId\<close>, each under such a name.
\<close>

definition keysFrom :: "(string \<times> int) list \<Rightarrow> conn \<Rightarrow> bool" where
  "keysFrom rs c =
     ((loginName c = [] \<or> loginName c = ''coder1'')
      \<and> list_all (\<lambda>r. fst r = [] \<or> fst r = ''coder1'') rs
      \<and> list_all (\<lambda>e. reqType e = ''welcome''
                      \<or> reqId e \<in> set (map (\<lambda>r. nextMsgId (fst r) (snd r)) rs))
           (pendingReq c))"

text \<open>
  Exactly one alarm is outstanding and \<open>_heartbeatTimer\<close> holds its handle; \<open>armed\<close> adds
  that the connection holds a socket. \<open>keepsSession\<close> marks the events other than the
  application's own \<open>login\<close> and \<open>logout\<close>.
\<close>

definition oneAlarm :: "conn \<Rightarrow> bool" where
  "oneAlarm c = ([heartbeatTimer c] = map (\<lambda>a. Some (fst a)) (timers c))"

definition armed :: "conn \<Rightarrow> bool" where
  "armed c = (oneAlarm c \<and> socket c \<noteq> None)"

fun keepsSession :: "event \<Rightarrow> bool" where
  "keepsSession (Login now) = False"
| "keepsSession Logout = False"
| "keepsSession ev = True"

section \<open>Properties of the decimal rendering\<close>



lemma toString_nat_nonempty: "toString_nat n \<noteq> []"
  by (subst toString_nat.simps) simp







section \<open>What the operations leave unchanged\<close>

lemma msgType_nth [simp]:
  "msgType ! typLogin = ''welcome''" "msgType ! typHeartbeat = ''heartbeat''"
  "msgType ! typMsg = ''msg''" "msgType ! typCount = ''count''" "msgType ! typTime = ''time''"
  by (simp_all add: msgType_def typLogin_def typHeartbeat_def typMsg_def typCount_def typTime_def)

lemma settle_frame [simp]:
  "pendingReq (settle p s c) = pendingReq c" "timers (settle p s c) = timers c"
  "nextTimer (settle p s c) = nextTimer c" "heartbeatTimer (settle p s c) = heartbeatTimer c"
  "socket (settle p s c) = socket c" "nextPromise (settle p s c) = nextPromise c"
  "calls (settle p s c) = calls c" "loginName (settle p s c) = loginName c"
  "loggedIn (settle p s c) = loggedIn c" "reset (settle p s c) = reset c"
  "logs (settle p s c) = logs c" "nextSocket (settle p s c) = nextSocket c"
  "sent (settle p s c) = sent c"
  by (simp_all add: settle_def split: option.splits)

lemma settle_fresh:
  "map_of (settled c) p = None \<Longrightarrow> map_of (settled (settle p s c)) p = Some s"
  by (simp add: settle_def map_add_def)

lemma log_frame [simp]:
  "pendingReq (logMsg m c) = pendingReq c" "pendingReq (logError m c) = pendingReq c"
  "pendingReq (logSent m c) = pendingReq c" "pendingReq (logReceived m c) = pendingReq c"
  "settled (logMsg m c) = settled c" "settled (logError m c) = settled c"
  "settled (logSent m c) = settled c" "settled (logReceived m c) = settled c"
  "timers (logMsg m c) = timers c" "timers (logError m c) = timers c"
  "timers (logSent m c) = timers c" "timers (logReceived m c) = timers c"
  "nextTimer (logMsg m c) = nextTimer c" "nextTimer (logError m c) = nextTimer c"
  "nextTimer (logSent m c) = nextTimer c" "nextTimer (logReceived m c) = nextTimer c"
  "heartbeatTimer (logMsg m c) = heartbeatTimer c"
  "heartbeatTimer (logError m c) = heartbeatTimer c"
  "heartbeatTimer (logSent m c) = heartbeatTimer c"
  "heartbeatTimer (logReceived m c) = heartbeatTimer c"
  "socket (logMsg m c) = socket c" "socket (logError m c) = socket c"
  "socket (logSent m c) = socket c" "socket (logReceived m c) = socket c"
  "nextPromise (logMsg m c) = nextPromise c" "nextPromise (logError m c) = nextPromise c"
  "nextPromise (logSent m c) = nextPromise c" "nextPromise (logReceived m c) = nextPromise c"
  "calls (logMsg m c) = calls c" "calls (logError m c) = calls c"
  "calls (logSent m c) = calls c" "calls (logReceived m c) = calls c"
  "loginName (logMsg m c) = loginName c" "loginName (logError m c) = loginName c"
  "loginName (logSent m c) = loginName c" "loginName (logReceived m c) = loginName c"
  "loggedIn (logMsg m c) = loggedIn c" "loggedIn (logError m c) = loggedIn c"
  "loggedIn (logSent m c) = loggedIn c" "loggedIn (logReceived m c) = loggedIn c"
  "nextSocket (logMsg m c) = nextSocket c" "nextSocket (logError m c) = nextSocket c"
  "nextSocket (logSent m c) = nextSocket c" "nextSocket (logReceived m c) = nextSocket c"
  by (simp_all add: logMsg_def logError_def logSent_def logReceived_def)

lemma invokeCb_frame [simp]:
  "pendingReq (invokeCb h a c) = pendingReq c" "timers (invokeCb h a c) = timers c"
  "nextTimer (invokeCb h a c) = nextTimer c" "heartbeatTimer (invokeCb h a c) = heartbeatTimer c"
  "socket (invokeCb h a c) = socket c" "nextPromise (invokeCb h a c) = nextPromise c"
  "nextSocket (invokeCb h a c) = nextSocket c"
  "calls (invokeCb h a c) = calls c @ [(h, a)]"
  by (cases h; simp add: Let_def)+

lemma nextMsgId_prefix: "take 9 (nextMsgId name now) = ''challenge''"
  by (simp add: nextMsgId_def)

section \<open>Responses reach the caller\<close>

lemma getPendingReq_first:
  "ident \<notin> reqId ` set pre \<Longrightarrow> reqId e = ident \<Longrightarrow>
   getPendingReq ident (pre @ e # post) = (Some (reqCallback e), pre @ post)"
  by (induction pre) auto

text \<open>
  C7: when the table holds a count request under the correlation key K1, no row before it
  has the same key, its caller still waits, and K1 carries the client's prefix as every
  generated key does, then the server's record of type msg whose payload holds count 23 and
  reply K1 completes the request: that caller's promise resolves with count 23, and the row
  leaves the table.
\<close>

theorem count_reply_reaches_caller:
  assumes "pendingReq c = pre @ e # post"
    and "reqId e = K1" and "reqCallback e = CountCb p"
    and "K1 \<notin> reqId ` set pre"
    and "take 9 K1 = ''challenge''"
    and "map_of (settled c) p = None"
  shows "\<exists>c'. handleOne (Obj [(''type'', Str ''msg''),
                  (''msg'', Obj [(''count'', Num 23), (''reply'', Str K1)])]) now c = Returned c'
           \<and> map_of (settled c') p = Some (Resolved (Obj [(''count'', Num 23)]))
           \<and> pendingReq c' = pre @ post"
proof -
  have "getPendingReq K1 (pendingReq c) = (Some (CountCb p), pre @ post)"
    using assms(1-4) getPendingReq_first [of K1 pre e post] by simp
  then show ?thesis
    using assms(5,6)
    by (simp add: handleOne_def getProp_def isStr_def handleCountMsg_def getMsgId_def Let_def
        settle_fresh)
qed

theorem count_reply_reaches_caller_witness:
  "pendingReq countPending =
     [\<lparr>reqId = [], reqType = ''welcome'', reqCallback = LoginCb 0, reqTime = 0\<rparr>] @
     \<lparr>reqId = ''challengecoder1200'', reqType = ''count'', reqCallback = CountCb 1,
      reqTime = 200\<rparr> # []
   \<and> ''challengecoder1200'' \<notin>
       reqId ` set [\<lparr>reqId = [], reqType = ''welcome'', reqCallback = LoginCb 0, reqTime = 0\<rparr>]
   \<and> take 9 ''challengecoder1200'' = ''challenge''
   \<and> map_of (settled countPending) 1 = None
   \<and> (\<exists>c'. handleOne (Obj [(''type'', Str ''msg''),
              (''msg'', Obj [(''count'', Num 23), (''reply'', Str ''challengecoder1200'')])])
              300 countPending = Returned c'
           \<and> map_of (settled c') 1 = Some (Resolved (Obj [(''count'', Num 23)]))
           \<and> pendingReq c' =
               [\<lparr>reqId = [], reqType = ''welcome'', reqCallback = LoginCb 0, reqTime = 0\<rparr>] @ [])"
proof -
  let ?login = "\<lparr>reqId = [], reqType = ''welcome'', reqCallback = LoginCb 0, reqTime = 0\<rparr>"
  let ?count = "\<lparr>reqId = ''challengecoder1200'', reqType = ''count'', reqCallback = CountCb 1,
                 reqTime = 200\<rparr>"
  have h1: "pendingReq countPending = [?login] @ ?count # []"
    by code_simp
  have h2: "reqId ?count = ''challengecoder1200''"
    by simp
  have h3: "reqCallback ?count = CountCb 1"
    by simp
  have h4: "''challengecoder1200'' \<notin> reqId ` set [?login]"
    by simp
  have h5: "take 9 ''challengecoder1200'' = ''challenge''"
    by simp
  have h6: "map_of (settled countPending) 1 = None"
    by code_simp
  from count_reply_reaches_caller [OF h1 h2 h3 h4 h5 h6, of 300] h1 h4 h5 h6 show ?thesis
    by blast
qed

text \<open>
  C10: when the table holds a time request under the key of a time response, no row before
  it has the same key, its caller still waits, and the response carries no error, getTime
  resolves with time taken from the payload's time field and number taken from the
  payload's random field; so a payload that has a number field and no random field
  resolves with number undefined.
\<close>

theorem time_reply_reads_random:
  assumes "pendingReq c = pre @ e # post"
    and "reqId e = key" and "reqCallback e = TimeCb p"
    and "key \<notin> reqId ` set pre"
    and "field payload ''reply'' = Str key"
    and "take 9 key = ''challenge''"
    and "field payload ''time'' \<noteq> Undefined"
    and "field payload ''err'' = Undefined \<or> field payload ''err'' = Null"
    and "map_of (settled c) p = None"
  shows "\<exists>c'. handleOne (Obj [(''type'', Str ''msg''), (''msg'', payload)]) now c = Returned c'
           \<and> map_of (settled c') p =
               Some (Resolved (Obj [(''time'', field payload ''time''),
                                    (''number'', field payload ''random'')]))
           \<and> (map_of (settled c') p =
                 Some (Resolved (Obj [(''time'', field payload ''time''),
                                      (''number'', Undefined)]))
               \<or> field payload ''random'' \<noteq> Undefined)"
proof -
  have nn: "payload \<noteq> Undefined" "payload \<noteq> Null"
    using assms(5) by auto
  have "getPendingReq key (pendingReq c) = (Some (TimeCb p), pre @ post)"
    using assms(1-4) getPendingReq_first [of key pre e post] by simp
  then show ?thesis
    using assms(5-9) nn
    by (auto simp add: handleOne_def getProp_def isStr_def handleCountMsg_def handleTimeMsg_def
        getMsgId_def Let_def settle_fresh)
qed

theorem time_reply_reads_random_witness:
  "pendingReq timePending =
     [\<lparr>reqId = [], reqType = ''welcome'', reqCallback = LoginCb 0, reqTime = 0\<rparr>] @
     \<lparr>reqId = ''challengecoder1200'', reqType = ''time'', reqCallback = TimeCb 1,
      reqTime = 200\<rparr> # []
   \<and> ''challengecoder1200'' \<notin>
       reqId ` set [\<lparr>reqId = [], reqType = ''welcome'', reqCallback = LoginCb 0, reqTime = 0\<rparr>]
   \<and> field (Obj [(''time'', Num 1234), (''number'', Num 52),
                 (''reply'', Str ''challengecoder1200'')]) ''reply'' = Str ''challengecoder1200''
   \<and> take 9 ''challengecoder1200'' = ''challenge''
   \<and> field (Obj [(''time'', Num 1234), (''number'', Num 52),
                 (''reply'', Str ''challengecoder1200'')]) ''time'' \<noteq> Undefined
   \<and> field (Obj [(''time'', Num 1234), (''number'', Num 52),
                 (''reply'', Str ''challengecoder1200'')]) ''err'' = Undefined
   \<and> map_of (settled timePending) 1 = None
   \<and> (\<exists>c'. handleOne (Obj [(''type'', Str ''msg''),
              (''msg'', Obj [(''time'', Num 1234), (''number'', Num 52),
                             (''reply'', Str ''challengecoder1200'')])])
              300 timePending = Returned c'
           \<and> map_of (settled c') 1 =
               Some (Resolved (Obj [(''time'', Num 1234), (''number'', Undefined)])))"
proof -
  let ?payload = "Obj [(''time'', Num 1234), (''number'', Num 52),
                       (''reply'', Str ''challengecoder1200'')]"
  let ?login = "\<lparr>reqId = [], reqType = ''welcome'', reqCallback = LoginCb 0, reqTime = 0\<rparr>"
  let ?time = "\<lparr>reqId = ''challengecoder1200'', reqType = ''time'', reqCallback = TimeCb 1,
                reqTime = 200\<rparr>"
  have h1: "pendingReq timePending = [?login] @ ?time # []"
    by code_simp
  have h1a: "reqId ?time = ''challengecoder1200''"
    by simp
  have h1b: "reqCallback ?time = TimeCb 1"
    by simp
  have h1c: "''challengecoder1200'' \<notin> reqId ` set [?login]"
    by simp
  have h2: "field ?payload ''reply'' = Str ''challengecoder1200''"
    by simp
  have h3: "take 9 ''challengecoder1200'' = ''challenge''"
    by simp
  have h4: "field ?payload ''time'' \<noteq> Undefined"
    by simp
  have h5: "field ?payload ''err'' = Undefined"
    by simp
  have h6: "map_of (settled timePending) 1 = None"
    by code_simp
  have r: "field ?payload ''random'' = Undefined" "field ?payload ''time'' = Num 1234"
    by simp_all
  from time_reply_reads_random [OF h1 h1a h1b h1c h2 h3 h4 disjI1 [OF h5] h6, of 300]
  obtain c' where
    "handleOne (Obj [(''type'', Str ''msg''), (''msg'', ?payload)]) 300 timePending
       = Returned c'"
    and "map_of (settled c') 1 =
           Some (Resolved (Obj [(''time'', field ?payload ''time''),
                                (''number'', field ?payload ''random'')]))"
    by blast
  then have "\<exists>c'. handleOne (Obj [(''type'', Str ''msg''), (''msg'', ?payload)]) 300
                 timePending = Returned c'
             \<and> map_of (settled c') 1 =
                 Some (Resolved (Obj [(''time'', Num 1234), (''number'', Undefined)]))"
    unfolding r by blast
  with h1 h1c h2 h3 h4 h5 h6 show ?thesis
    by blast
qed

section \<open>Correlation keys\<close>

text \<open>
  A key names the login name and the clock reading it was made from: under the names the
  client ever has, the empty one and \<open>coder1\<close>, two keys are equal only if both the names
  and the readings are equal.
\<close>

lemma toString_nonempty: "toString t \<noteq> []"
  by (simp add: toString_def toString_nat_nonempty)









lemma keysFrom_log [simp]:
  "keysFrom rs (logMsg m c) = keysFrom rs c" "keysFrom rs (logError m c) = keysFrom rs c"
  "keysFrom rs (logSent m c) = keysFrom rs c" "keysFrom rs (logReceived m c) = keysFrom rs c"
  by (simp_all add: keysFrom_def)

lemma keysFrom_other [simp]:
  "keysFrom rs (c\<lparr>jobs := js\<rparr>) = keysFrom rs c"
  "keysFrom rs (c\<lparr>polls := ps\<rparr>) = keysFrom rs c"
  "keysFrom rs (c\<lparr>nextPromise := n\<rparr>) = keysFrom rs c"
  "keysFrom rs (c\<lparr>sent := ss\<rparr>) = keysFrom rs c"
  "keysFrom rs (c\<lparr>heartbeatTimer := x\<rparr>) = keysFrom rs c"
  "keysFrom rs (clearTimeout t c) = keysFrom rs c"
  "keysFrom rs (snd (setTimeout d now c)) = keysFrom rs c"
  by (simp_all add: keysFrom_def clearTimeout_def setTimeout_def)







lemma getMsgId_table [simp]: "pendingReq (snd (getMsgId msg c)) = pendingReq c"
  by (simp add: getMsgId_def split: jsval.splits)

















text \<open>
  Two runs in which the \<open>then\<close> branch runs later than the call. A request followed by
  \<open>logout\<close> in the same block of code is pushed under the empty name and, with no socket,
  its callback receives the error of the write. A request made during a reset waits for
  its poll: the alarm of \<open>startup\<close> falls due at 2000, the request is made, the new login is
  welcomed at 2100, the poll sees the connection logged in, and the row is pushed at 3000.
\<close>

lemma request_then_logout:
  "map reqId (pendingReq (run [Login 0, Data [welcomeMsg] 100, CountRequest, Logout,
                               RunJob 0 200 200] (newConn 3001 ''127.0.0.1''))) =
     [''challenge200'']
   \<and> jobs (run [Login 0, Data [welcomeMsg] 100, CountRequest, Logout,
                RunJob 0 200 200] (newConn 3001 ''127.0.0.1'')) =
     [CatchJob (CountCb 1) (Obj [(''message'', Str ''TypeError'')])]"
  by code_simp

lemma request_during_reset:
  "pendingReq (run [CountRequest, Data [welcomeMsg] 2100] (after (fireTimer 0 2000 startup))) =
     [\<lparr>reqId = [], reqType = ''welcome'', reqCallback = LoginCb 1, reqTime = 2000\<rparr>]
   \<and> pendingReq (run [CountRequest, Data [welcomeMsg] 2100, Poll 0, RunJob 0 3000 3000]
                    (after (fireTimer 0 2000 startup))) =
     [\<lparr>reqId = [], reqType = ''welcome'', reqCallback = LoginCb 1, reqTime = 2000\<rparr>,
      \<lparr>reqId = ''challengecoder13000'', reqType = ''count'', reqCallback = CountCb 2,
       reqTime = 3000\<rparr>]"
  by code_simp




section \<open>What a reset does to the table\<close>

lemma resetNotify_frame [simp]:
  "pendingReq (resetNotify es c) = pendingReq c" "socket (resetNotify es c) = socket c"
  "nextPromise (resetNotify es c) = nextPromise c"
  by (induction es arbitrary: c) simp_all

lemma resetNotify_calls:
  "calls (resetNotify es c) =
     calls c @ map (\<lambda>e. (reqCallback e, resetErr e)) (filter (\<lambda>e. reqType e \<noteq> ''welcome'') es)"
  by (induction es arbitrary: c) simp_all

lemma login_table:
  "pendingReq (login now c) =
     [\<lparr>reqId = [], reqType = ''welcome'', reqCallback = LoginCb (nextPromise c), reqTime = now\<rparr>]"
  "calls (login now c) = calls c"
  by (simp_all add: login_def sendLoginReq_def setTimeout_def Let_def logMsg_def logSent_def)

text \<open>
  C2, as the claim states it, fails: the login row pending before the reset (callback of the
  first login, submitted at 0) is not in the table after the reset. The table then holds
  another login row, with the callback of the reconnect's own promise and the reset time,
  and the first login's callback has not been called.
\<close>

theorem reset_replaces_login_row:
  "pendingReq connecting =
     [\<lparr>reqId = [], reqType = ''welcome'', reqCallback = LoginCb 0, reqTime = 0\<rparr>]
   \<and> \<lparr>reqId = [], reqType = ''welcome'', reqCallback = LoginCb 0, reqTime = 0\<rparr>
       \<notin> set (pendingReq (after (fireTimer 0 2000 connecting)))
   \<and> pendingReq (after (fireTimer 0 2000 connecting)) =
     [\<lparr>reqId = [], reqType = ''welcome'', reqCallback = LoginCb 1, reqTime = 2000\<rparr>]
   \<and> calls (after (fireTimer 0 2000 connecting)) = []"
  by code_simp

text \<open>
  C2, amended: when a reset runs on a connection that holds a socket, the handler of every
  pending entry whose kind is not login is invoked exactly once with the reset failure
  reason, in table order, and no other handler is invoked; the reconnect then clears the
  table, so that afterwards it holds exactly one entry, a new login entry with an empty key,
  the reconnect's own handler and the reset time as submit time. A login entry that was
  pending before is dropped with the rest, its handler not invoked.
\<close>

theorem reset_notifies_requests_and_restarts_login:
  assumes "socket c = Some s"
  shows "\<exists>c'. resetConnection now c = Returned c'
           \<and> calls c' = calls c @ map (\<lambda>e. (reqCallback e, resetErr e))
                                     (filter (\<lambda>e. reqType e \<noteq> ''welcome'') (pendingReq c))
           \<and> pendingReq c' =
               [\<lparr>reqId = [], reqType = ''welcome'', reqCallback = LoginCb (nextPromise c),
                 reqTime = now\<rparr>]"
  using assms
  by (simp add: resetConnection_def Let_def login_table resetNotify_calls)

theorem reset_notifies_requests_and_restarts_login_witness:
  "socket bothPending = Some 0
   \<and> (\<exists>c'. resetConnection 2000 bothPending = Returned c'
           \<and> calls c' = calls bothPending @
                 map (\<lambda>e. (reqCallback e, resetErr e))
                   (filter (\<lambda>e. reqType e \<noteq> ''welcome'')
                      (pendingReq bothPending))
           \<and> pendingReq c' =
               [\<lparr>reqId = [], reqType = ''welcome'',
                 reqCallback = LoginCb (nextPromise bothPending),
                 reqTime = 2000\<rparr>])
   \<and> map (\<lambda>e. (reqCallback e, resetErr e))
        (filter (\<lambda>e. reqType e \<noteq> ''welcome'')
           (pendingReq bothPending)) =
      [(CountCb 1, Obj [(''err'',
            Str ''Server reset error - request type: count, request time: 200'')]),
       (TimeCb 2, Obj [(''err'',
            Str ''Server reset error - request type: time, request time: 201'')])]"
proof -
  have h: "socket bothPending = Some 0"
    by code_simp
  have e: "map (\<lambda>e. (reqCallback e, resetErr e))
        (filter (\<lambda>e. reqType e \<noteq> ''welcome'')
           (pendingReq bothPending)) =
      [(CountCb 1, Obj [(''err'',
            Str ''Server reset error - request type: count, request time: 200'')]),
       (TimeCb 2, Obj [(''err'',
            Str ''Server reset error - request type: time, request time: 201'')])]"
    by code_simp
  from reset_notifies_requests_and_restarts_login [OF h, of 2000] h e show ?thesis
    by blast
qed

section \<open>Records are decoded one by one\<close>

lemma splitFrom_append:
  "splitFrom piece (a @ CHR 0x0A # b) = splitFrom piece a @ splitFrom [] b"
  by (induction a arbitrary: piece) simp_all

lemma splitFrom_single: "CHR 0x0A \<notin> set a \<Longrightarrow> splitFrom piece a = [piece @ a]"
  by (induction a arbitrary: piece) auto

lemma split_nl_append: "split_nl (a @ CHR 0x0A # b) = split_nl a @ split_nl b"
  by (simp add: split_nl_def splitFrom_append)

lemma split_nl_single: "CHR 0x0A \<notin> set a \<Longrightarrow> split_nl a = [a]"
  by (simp add: split_nl_def splitFrom_single)

lemma parseLoop_append:
  "parseLoop P (ps @ qs) acc c =
     (case parseLoop P ps acc c of (acc1, c1) \<Rightarrow> parseLoop P qs acc1 c1)"
  by (induction ps arbitrary: acc c) (simp_all split: option.splits)

lemma parseLoop_acc:
  "fst (parseLoop P ps acc c) = acc @ fst (parseLoop P ps [] c0)"
proof (induction ps arbitrary: acc c c0)
  case Nil
  then show ?case by simp
next
  case (Cons m ps)
  show ?case
  proof (cases "length (trim m) > 0")
    case False
    then show ?thesis using Cons.IH [of acc c c0] by simp
  next
    case True
    show ?thesis
    proof (cases "P m")
      case None
      then show ?thesis using True Cons.IH [of acc "logError ''Invalid non-JSON message format'' c" "logError ''Invalid non-JSON message format'' c0"] by simp
    next
      case (Some v)
      have "fst (parseLoop P ps (acc @ [v]) c) = (acc @ [v]) @ fst (parseLoop P ps [] c0)"
        by (rule Cons.IH)
      moreover have "fst (parseLoop P ps [v] c0) = [v] @ fst (parseLoop P ps [] c0)"
        by (rule Cons.IH)
      ultimately show ?thesis using True Some by simp
    qed
  qed
qed

lemma parseLoop_state:
  "\<exists>ls. snd (parseLoop P ps acc c) = c\<lparr>logs := logs c @ ls\<rparr>
        \<and> set ls \<subseteq> {LogError ''Invalid non-JSON message format''}"
proof (induction ps arbitrary: acc c)
  case Nil
  have "c = c\<lparr>logs := logs c @ []\<rparr>" by simp
  then show ?case by (metis parseLoop.simps(1) snd_conv empty_subsetI set_empty2)
next
  case (Cons m ps)
  show ?case
  proof (cases "length (trim m) > 0 \<and> P m = None")
    case True
    obtain ls where ls: "snd (parseLoop P ps acc (logError ''Invalid non-JSON message format'' c)) =
        (logError ''Invalid non-JSON message format'' c)\<lparr>logs := logs (logError ''Invalid non-JSON message format'' c) @ ls\<rparr>"
       "set ls \<subseteq> {LogError ''Invalid non-JSON message format''}"
      using Cons.IH by blast
    have "snd (parseLoop P (m # ps) acc c) = c\<lparr>logs := logs c @ (LogError ''Invalid non-JSON message format'' # ls)\<rparr>"
      using True ls(1) by (simp add: logError_def)
    moreover have "set (LogError ''Invalid non-JSON message format'' # ls) \<subseteq> {LogError ''Invalid non-JSON message format''}"
      using ls(2) by simp
    ultimately show ?thesis by blast
  next
    case False
    then show ?thesis using Cons.IH by (auto split: option.splits)
  qed
qed

lemma parse_independent:
  "fst (parseRcvBuffer P (a @ CHR 0x0A # b) c) =
     fst (parseRcvBuffer P a c) @ fst (parseRcvBuffer P b c)"
proof -
  obtain acc1 c1 where p: "parseLoop P (split_nl a) [] c = (acc1, c1)" by fastforce
  have "fst (parseRcvBuffer P (a @ CHR 0x0A # b) c) = fst (parseLoop P (split_nl b) acc1 c1)"
    by (simp add: parseRcvBuffer_def split_nl_append parseLoop_append p)
  also have "\<dots> = acc1 @ fst (parseLoop P (split_nl b) [] c)"
    by (rule parseLoop_acc)
  finally show ?thesis by (simp add: parseRcvBuffer_def p)
qed

lemma parse_bad_record:
  assumes "P bad = None" "CHR 0x0A \<notin> set bad" "trim bad \<noteq> []"
  shows "parseRcvBuffer P bad c = ([], logError ''Invalid non-JSON message format'' c)"
  using assms by (simp add: parseRcvBuffer_def split_nl_single)

lemma parse_good_record:
  assumes "P good = Some v" "CHR 0x0A \<notin> set good" "trim good \<noteq> []"
  shows "parseRcvBuffer P good c = ([v], c)"
  using assms by (simp add: parseRcvBuffer_def split_nl_single)

lemma chkLoop_frame [simp]:
  "timers (chkLoop n ndx ts c) = timers c"
  "heartbeatTimer (chkLoop n ndx ts c) = heartbeatTimer c"
  "nextTimer (chkLoop n ndx ts c) = nextTimer c"
  by (induction n arbitrary: ndx c) (simp_all add: Let_def)

lemma heartbeat_rearms:
  assumes "heartbeatTimer c = Some t"
  shows "heartbeatTimer (handleHeartbeat now c) = Some (nextTimer c)"
    and "timers (handleHeartbeat now c) =
           filter (\<lambda>a. fst a \<noteq> t) (timers c) @ [(nextTimer c, now + 2000)]"
  using assms
  by (simp_all add: handleHeartbeat_def setTimeout_def clearTimeout_def Let_def chkPendingReq_def)


lemma parseLoop_logs_mono:
  "set (logs c) \<subseteq> set (logs (snd (parseLoop P ps acc c)))"
proof -
  obtain ls where "snd (parseLoop P ps acc c) = c\<lparr>logs := logs c @ ls\<rparr>"
    using parseLoop_state by blast
  then show ?thesis by simp
qed

text \<open>
  C8: the decoder splits the chunk at line feeds and decodes each record on its own: what
  it yields for a chunk is what it yields for the part before a line feed followed by what
  it yields for the part after it. A record that does not parse yields nothing, leaves an
  error line in the log, and the records after it are decoded as if it were not there. In
  particular, a malformed fragment followed by a heartbeat record in one chunk makes
  \<open>_handleServerMsg\<close> handle the heartbeat: with an alarm armed, the alarm is cleared and a
  new one is set 2000 ms ahead.
\<close>

theorem decoder_drops_bad_record_keeps_rest:
  assumes "jsonParse bad = None" and "CHR 0x0A \<notin> set bad" and "trim bad \<noteq> []"
  shows "fst (parseRcvBuffer jsonParse (headPart @ CHR 0x0A # tailPart) c) =
           fst (parseRcvBuffer jsonParse headPart c) @ fst (parseRcvBuffer jsonParse tailPart c)
       \<and> fst (parseRcvBuffer jsonParse (bad @ CHR 0x0A # rest) c) =
           fst (parseRcvBuffer jsonParse rest c)
       \<and> LogError ''Invalid non-JSON message format''
           \<in> set (logs (snd (parseRcvBuffer jsonParse (bad @ CHR 0x0A # rest) c)))
       \<and> (jsonParse hb = Some heartbeatMsg \<and> CHR 0x0A \<notin> set hb \<and> trim hb \<noteq> []
            \<and> heartbeatTimer c = Some t \<longrightarrow>
          (\<exists>c'. handleServerMsg jsonParse (bad @ CHR 0x0A # hb) now c = Returned c'
             \<and> heartbeatTimer c' = Some (nextTimer c)
             \<and> timers c' = filter (\<lambda>a. fst a \<noteq> t) (timers c) @ [(nextTimer c, now + 2000)]))"
proof (intro conjI impI)
  show "fst (parseRcvBuffer jsonParse (headPart @ CHR 0x0A # tailPart) c) =
           fst (parseRcvBuffer jsonParse headPart c) @ fst (parseRcvBuffer jsonParse tailPart c)"
    by (rule parse_independent)
  have b: "parseRcvBuffer jsonParse bad c0 = ([], logError ''Invalid non-JSON message format'' c0)"
    for c0 using assms by (rule parse_bad_record)
  show "fst (parseRcvBuffer jsonParse (bad @ CHR 0x0A # rest) c) =
           fst (parseRcvBuffer jsonParse rest c)"
    by (simp add: parse_independent b)
  have "parseRcvBuffer jsonParse (bad @ CHR 0x0A # rest) c =
          parseLoop jsonParse (split_nl rest) [] (logError ''Invalid non-JSON message format'' c)"
    using b [of c] by (simp add: parseRcvBuffer_def split_nl_append parseLoop_append)
  moreover have "LogError ''Invalid non-JSON message format''
      \<in> set (logs (logError ''Invalid non-JSON message format'' c))"
    by (simp add: logError_def)
  ultimately show "LogError ''Invalid non-JSON message format''
           \<in> set (logs (snd (parseRcvBuffer jsonParse (bad @ CHR 0x0A # rest) c)))"
    using parseLoop_logs_mono by fastforce
next
  assume h: "jsonParse hb = Some heartbeatMsg \<and> CHR 0x0A \<notin> set hb \<and> trim hb \<noteq> []
            \<and> heartbeatTimer c = Some t"
  let ?c0 = "logReceived (bad @ CHR 0x0A # hb) c"
  let ?c1 = "logError ''Invalid non-JSON message format'' ?c0"
  have b: "parseRcvBuffer jsonParse bad ?c0 = ([], ?c1)"
    using assms by (rule parse_bad_record)
  have g: "parseRcvBuffer jsonParse hb ?c1 = ([heartbeatMsg], ?c1)"
    using h by (simp add: parse_good_record)
  have p: "parseRcvBuffer jsonParse (bad @ CHR 0x0A # hb) ?c0 = ([heartbeatMsg], ?c1)"
    using b g by (simp add: parseRcvBuffer_def split_nl_append parseLoop_append)
  have t: "heartbeatTimer ?c1 = Some t" "timers ?c1 = timers c" "nextTimer ?c1 = nextTimer c"
    using h by simp_all
  have "handleServerMsg jsonParse (bad @ CHR 0x0A # hb) now c = Returned (handleHeartbeat now ?c1)"
    by (simp add: handleServerMsg_def p handleOne_def heartbeatMsg_def getProp_def isStr_def)
  then show "\<exists>c'. handleServerMsg jsonParse (bad @ CHR 0x0A # hb) now c = Returned c'
             \<and> heartbeatTimer c' = Some (nextTimer c)
             \<and> timers c' = filter (\<lambda>a. fst a \<noteq> t) (timers c) @ [(nextTimer c, now + 2000)]"
    using heartbeat_rearms [OF t(1), of now] t(2,3) by simp
qed

theorem decoder_drops_bad_record_keeps_rest_witness:
  "onlyHeartbeat ''{not json'' = None \<and> CHR 0x0A \<notin> set ''{not json'' \<and> trim ''{not json'' \<noteq> []
   \<and> onlyHeartbeat heartbeatText = Some heartbeatMsg \<and> CHR 0x0A \<notin> set heartbeatText
   \<and> trim heartbeatText \<noteq> [] \<and> heartbeatTimer startup = Some 0
   \<and> fst (parseRcvBuffer onlyHeartbeat (''{not json'' @ CHR 0x0A # heartbeatText) startup) =
       [heartbeatMsg]
   \<and> LogError ''Invalid non-JSON message format''
       \<in> set (logs (snd (parseRcvBuffer onlyHeartbeat (''{not json'' @ CHR 0x0A # heartbeatText)
                            startup)))
   \<and> (\<exists>c'. handleServerMsg onlyHeartbeat (''{not json'' @ CHR 0x0A # heartbeatText) 1500 startup
             = Returned c'
          \<and> heartbeatTimer c' = Some 1 \<and> timers c' = [(1, 3500)])"
proof -
  have h1: "onlyHeartbeat ''{not json'' = None" by code_simp
  have h2: "CHR 0x0A \<notin> set ''{not json''" by simp
  have h3: "trim ''{not json'' \<noteq> []" by code_simp
  have h4: "onlyHeartbeat heartbeatText = Some heartbeatMsg" by (simp add: onlyHeartbeat_def)
  have h5: "CHR 0x0A \<notin> set heartbeatText" by (simp add: heartbeatText_def)
  have h6: "trim heartbeatText \<noteq> []" by code_simp
  have h7: "heartbeatTimer startup = Some 0" by code_simp
  have e1: "fst (parseRcvBuffer onlyHeartbeat heartbeatText startup) = [heartbeatMsg]"
    by code_simp
  have e2: "nextTimer startup = 1" by code_simp
  have e3: "filter (\<lambda>a. fst a \<noteq> 0) (timers startup) @ [(1, 1500 + 2000)] = [(1, 3500)]"
    by code_simp
  note inst = decoder_drops_bad_record_keeps_rest [where jsonParse = onlyHeartbeat
      and bad = "''{not json''" and headPart = "''{not json''" and tailPart = heartbeatText
      and rest = heartbeatText and hb = heartbeatText and c = startup and t = 0
      and now = 1500, OF h1 h2 h3]
  from inst have "fst (parseRcvBuffer onlyHeartbeat (''{not json'' @ CHR 0x0A # heartbeatText)
      startup) = fst (parseRcvBuffer onlyHeartbeat heartbeatText startup)"
    by blast
  then have a: "fst (parseRcvBuffer onlyHeartbeat (''{not json'' @ CHR 0x0A # heartbeatText)
      startup) = [heartbeatMsg]"
    by (simp only: e1)
  from inst have b: "LogError ''Invalid non-JSON message format''
       \<in> set (logs (snd (parseRcvBuffer onlyHeartbeat (''{not json'' @ CHR 0x0A # heartbeatText)
                            startup)))"
    by blast
  from inst h4 h5 h6 h7 have "\<exists>c'. handleServerMsg onlyHeartbeat
      (''{not json'' @ CHR 0x0A # heartbeatText) 1500 startup = Returned c'
          \<and> heartbeatTimer c' = Some (nextTimer startup)
          \<and> timers c' = filter (\<lambda>a. fst a \<noteq> 0) (timers startup) @
                [(nextTimer startup, 1500 + 2000)]"
    by blast
  then have c: "\<exists>c'. handleServerMsg onlyHeartbeat
      (''{not json'' @ CHR 0x0A # heartbeatText) 1500 startup = Returned c'
          \<and> heartbeatTimer c' = Some 1 \<and> timers c' = [(1, 3500)]"
    by (simp only: e3 e2)
  from h1 h2 h3 h4 h5 h6 h7 a b c show ?thesis by blast
qed


section \<open>The login row outlives its acknowledgment\<close>

text \<open>
  C1 fails on the code at this run: login at 0, the server's welcome at 100, heartbeats at
  1500, 3000, 4500 and 6000. The welcome calls the login handler and leaves the login row in
  the table; the check run by the heartbeat at 6000 finds the row older than 5000 ms, removes
  it and calls the same handler a second time, with a timeout error.
\<close>

theorem login_handler_called_twice:
  "pendingReq startup =
     [\<lparr>reqId = [], reqType = ''welcome'', reqCallback = LoginCb 0, reqTime = 0\<rparr>]
   \<and> calls startup = [(LoginCb 0, Null)]
   \<and> calls (beat 6000 (beat 4500 (beat 3000 (beat 1500 startup)))) =
       [(LoginCb 0, Null),
        (LoginCb 0, timeoutErr \<lparr>reqId = [], reqType = ''welcome'', reqCallback = LoginCb 0,
                                reqTime = 0\<rparr>)]"
  by code_simp

section \<open>The timeout check skips the row after a removed one\<close>

text \<open>
  What the check does keep to: a row whose age does not exceed 5000 ms stays in the table,
  and every handler the check calls belongs to a row of the table older than 5000 ms and
  is called with that row's timeout error.
\<close>

lemma filter_splice1:
  "ndx < length xs \<Longrightarrow> \<not> P (xs ! ndx) \<Longrightarrow> filter P (splice1 ndx xs) = filter P xs"
proof -
  assume a: "ndx < length xs" and b: "\<not> P (xs ! ndx)"
  have "xs = take ndx xs @ xs ! ndx # drop (Suc ndx) xs"
    using a by (simp add: id_take_nth_drop)
  then have "filter P xs = filter P (take ndx xs) @ filter P (xs ! ndx # drop (Suc ndx) xs)"
    by (metis filter_append)
  with b show ?thesis by (simp add: splice1_def)
qed

lemma chkLoop_keeps_young:
  "filter (\<lambda>e. \<not> timestamp - reqTime e > 5000) (pendingReq (chkLoop n ndx timestamp c)) =
   filter (\<lambda>e. \<not> timestamp - reqTime e > 5000) (pendingReq c)"
  by (induction n arbitrary: ndx c) (simp_all add: Let_def filter_splice1)

lemma chkLoop_calls_expired:
  "\<exists>es. calls (chkLoop n ndx timestamp c) = calls c @ map (\<lambda>e. (reqCallback e, timeoutErr e)) es
        \<and> (\<forall>e \<in> set es. e \<in> set (pendingReq c) \<and> timestamp - reqTime e > 5000)"
proof (induction n arbitrary: ndx c)
  case 0
  have "calls c = calls c @ map (\<lambda>e. (reqCallback e, timeoutErr e)) []" by simp
  then show ?case by (metis chkLoop.simps(1) empty_iff list.set(1))
next
  case (Suc n)
  show ?case
  proof (cases "ndx < length (pendingReq c) \<and> timestamp - reqTime (pendingReq c ! ndx) > 5000")
    case False
    then show ?thesis using Suc.IH [of "Suc ndx" c] by (auto simp add: Let_def)
  next
    case True
    let ?req = "pendingReq c ! ndx"
    let ?c1 = "invokeCb (reqCallback ?req) (timeoutErr ?req) (c\<lparr>pendingReq := splice1 ndx (pendingReq c)\<rparr>)"
    obtain es where es: "calls (chkLoop n (Suc ndx) timestamp ?c1) = calls ?c1 @ map (\<lambda>e. (reqCallback e, timeoutErr e)) es"
       "\<forall>e \<in> set es. e \<in> set (pendingReq ?c1) \<and> timestamp - reqTime e > 5000"
      using Suc.IH [of "Suc ndx" ?c1] by blast
    have sub: "set (splice1 ndx (pendingReq c)) \<subseteq> set (pendingReq c)"
      unfolding splice1_def by (metis set_append Un_mono set_take_subset set_drop_subset sup.idem)
    have "calls (chkLoop (Suc n) ndx timestamp c) = calls c @ map (\<lambda>e. (reqCallback e, timeoutErr e)) (?req # es)"
      using True es(1) by (simp add: Let_def)
    moreover have "\<forall>e \<in> set (?req # es). e \<in> set (pendingReq c) \<and> timestamp - reqTime e > 5000"
      using True es(2) sub by auto
    ultimately show ?thesis by blast
  qed
qed

text \<open>
  C3 fails on the code at these tables. First, a table of two request rows submitted at 200
  and 300, checked at 6000: both are older than 5000 ms, the check removes the first and
  calls its handler, and the second, which moved into the place of the removed row, is not
  visited: it stays in the table and its handler is not called. Second, in a run of the
  client: at the heartbeat of 6000 the table holds three adjacent rows older than 5000 ms
  (the login row of 0, a count request of 200, a time request of 201); the check removes
  the first and the third, and the count request stays.
\<close>

theorem sweep_skips_adjacent_expired:
  "pendingReq (chkPendingReq 6000 ((newConn 3001 ''127.0.0.1'')
       \<lparr>pendingReq :=
          [\<lparr>reqId = ''challengecoder1200'', reqType = ''count'', reqCallback = CountCb 1,
            reqTime = 200\<rparr>,
           \<lparr>reqId = ''challengecoder1300'', reqType = ''time'', reqCallback = TimeCb 2,
            reqTime = 300\<rparr>]\<rparr>)) =
     [\<lparr>reqId = ''challengecoder1300'', reqType = ''time'', reqCallback = TimeCb 2,
       reqTime = 300\<rparr>]
   \<and> map fst (calls (chkPendingReq 6000 ((newConn 3001 ''127.0.0.1'')
       \<lparr>pendingReq :=
          [\<lparr>reqId = ''challengecoder1200'', reqType = ''count'', reqCallback = CountCb 1,
            reqTime = 200\<rparr>,
           \<lparr>reqId = ''challengecoder1300'', reqType = ''time'', reqCallback = TimeCb 2,
            reqTime = 300\<rparr>]\<rparr>))) = [CountCb 1]
   \<and> (5000::int) < 6000 - 300
   \<and> map (\<lambda>e. (reqCallback e, 5000 < 6000 - reqTime e)) (pendingReq twoRequests) =
     [(LoginCb 0, True), (CountCb 1, True), (TimeCb 2, True)]
   \<and> map (\<lambda>e. (reqCallback e, 5000 < 6000 - reqTime e)) (pendingReq (beat 6000 twoRequests)) =
     [(CountCb 1, True)]
   \<and> map fst (calls twoRequests) = [LoginCb 0]
   \<and> map fst (calls (beat 6000 twoRequests)) = [LoginCb 0, LoginCb 0, TimeCb 2]"
  by code_simp

section \<open>The readiness poll\<close>

text \<open>
  The outcomes of the check by case: logged in, neither logged in nor resetting, and
  resetting with \<open>this.loggedIn\<close> true or false at the first poll. What \<open>_sendServerReq\<close>
  leaves behind at the call follows the check before any poll, and a poll that does not
  see the connection logged in throws.
\<close>

lemma chkServerLogin_before_poll:
  "chkServerLogin c [] =
     (if loggedIn c then ChkResolved
      else if reset c then ChkPending
      else ChkRejected (Obj [(''err'', Str ''Not logged into server!'')]))"
  by (simp add: chkServerLogin_def)

lemma sendServerReq_by_check:
  "sendServerReq req ty cb c =
     (case chkServerLogin c [] of
        ChkResolved \<Rightarrow> c\<lparr>jobs := jobs c @ [ThenJob req ty cb]\<rparr>
      | ChkRejected err \<Rightarrow> c\<lparr>jobs := jobs c @ [CatchJob cb err]\<rparr>
      | ChkThrew e \<Rightarrow> c
      | ChkPending \<Rightarrow> c\<lparr>polls := polls c @ [Poller req ty cb False]\<rparr>)"
  by (simp add: chkServerLogin_before_poll sendServerReq_def)

lemma pollTick_not_logged_in:
  "k < length (polls c) \<Longrightarrow> \<not> loggedIn c \<Longrightarrow> pollTick k c = Threw ReferenceError c"
  by (simp add: pollTick_def split: poller.splits)

lemma chkServerLogin_cases:
  "loggedIn c \<Longrightarrow> chkServerLogin c ticks = ChkResolved"
  "\<not> loggedIn c \<Longrightarrow> \<not> reset c \<Longrightarrow>
     chkServerLogin c ticks = ChkRejected (Obj [(''err'', Str ''Not logged into server!'')])"
  "\<not> loggedIn c \<Longrightarrow> reset c \<Longrightarrow> chkServerLogin c (True # ticks) = ChkResolved"
  "\<not> loggedIn c \<Longrightarrow> reset c \<Longrightarrow> chkServerLogin c (False # ticks) = ChkThrew ReferenceError"
  by (simp_all add: chkServerLogin_def)

text \<open>
  C4 fails on the code at this run: the heartbeat alarm of \<open>startup\<close> falls due at 2000, so
  the connection is resetting and not logged in, and \<open>this.loggedIn\<close> stays false at each
  of the five polls. The first poll evaluates \<open>--i\<close> with no \<open>i\<close> in scope and throws a
  ReferenceError; the promise is never rejected with a reset error. The same happens when
  \<open>this.loggedIn\<close> has become true by the second poll.
\<close>

theorem poll_throws_reference_error:
  "loggedIn (after (fireTimer 0 2000 startup)) = False
   \<and> reset (after (fireTimer 0 2000 startup)) = True
   \<and> chkServerLogin (after (fireTimer 0 2000 startup)) [False, False, False, False, False] =
       ChkThrew ReferenceError
   \<and> chkServerLogin (after (fireTimer 0 2000 startup)) [False, True] = ChkThrew ReferenceError"
  by code_simp

section \<open>Heartbeat alarms across logins\<close>

text \<open>
  Where the single alarm does hold: the first login of a new connection arms one; a
  heartbeat clears the current alarm and arms a new one; the firing of the current alarm
  runs one reset, whose login arms one. So in every run that follows the first login and
  has no further \<open>login\<close> or \<open>logout\<close> by the application, exactly one alarm is outstanding
  after each event.
\<close>

lemma login_timers:
  "timers (login now c) = timers c @ [(nextTimer c, now + 2000)]"
  "heartbeatTimer (login now c) = Some (nextTimer c)"
  "socket (login now c) = Some (nextSocket c)"
  by (simp_all add: login_def sendLoginReq_def setTimeout_def Let_def logMsg_def logSent_def)

lemma first_login_armed: "armed (login now (newConn port ip))"
  by (simp add: armed_def oneAlarm_def login_timers newConn_def)

lemma armed_frame:
  "timers c' = timers c \<Longrightarrow> heartbeatTimer c' = heartbeatTimer c \<Longrightarrow> socket c' = socket c \<Longrightarrow>
   armed c \<Longrightarrow> armed c'"
  by (simp add: armed_def oneAlarm_def)

lemma chkLoop_socket [simp]: "socket (chkLoop n ndx ts c) = socket c"
  by (induction n arbitrary: ndx c) (simp_all add: Let_def)

lemma handleHeartbeat_armed: "armed c \<Longrightarrow> armed (handleHeartbeat now c)"
proof -
  assume a: "armed c"
  then obtain t d where t: "heartbeatTimer c = Some t" "timers c = [(t, d)]"
    by (auto simp add: armed_def oneAlarm_def)
  then show ?thesis using a
    by (simp add: armed_def oneAlarm_def handleHeartbeat_def setTimeout_def clearTimeout_def
        Let_def chkPendingReq_def)
qed

lemma resetNotify_timers [simp]:
  "timers (resetNotify es c) = timers c" "nextTimer (resetNotify es c) = nextTimer c"
  "nextSocket (resetNotify es c) = nextSocket c"
  by (induction es arbitrary: c) simp_all

lemma fireTimer_armed: "armed c \<Longrightarrow> armed (after (fireTimer t now c))"
proof (cases "t \<in> fst ` set (timers c)")
  case False
  assume "armed c"
  with False show ?thesis by (simp add: fireTimer_def)
next
  case True
  assume a: "armed c"
  then obtain h d s where h: "heartbeatTimer c = Some h" "timers c = [(h, d)]" "socket c = Some s"
    by (auto simp add: armed_def oneAlarm_def)
  with True have "t = h" by simp
  with h show ?thesis
    by (simp add: fireTimer_def resetConnection_def clearTimeout_def Let_def login_timers
        armed_def oneAlarm_def logMsg_def)
qed

lemma getMsgId_frame [simp]:
  "timers (snd (getMsgId msg c)) = timers c"
  "heartbeatTimer (snd (getMsgId msg c)) = heartbeatTimer c"
  "socket (snd (getMsgId msg c)) = socket c"
  by (simp_all add: getMsgId_def split: jsval.splits)

lemma handleCountMsg_frame [simp]:
  "timers (handleCountMsg msg c) = timers c"
  "heartbeatTimer (handleCountMsg msg c) = heartbeatTimer c"
  "socket (handleCountMsg msg c) = socket c"
  by (auto simp add: handleCountMsg_def getMsgId_def split: prod.splits option.splits jsval.splits)

lemma handleTimeMsg_frame [simp]:
  "timers (handleTimeMsg msg c) = timers c"
  "heartbeatTimer (handleTimeMsg msg c) = heartbeatTimer c"
  "socket (handleTimeMsg msg c) = socket c"
  by (auto simp add: handleTimeMsg_def getMsgId_def split: prod.splits option.splits jsval.splits)

lemma handleLoginMsg_frame [simp]:
  "timers (after (handleLoginMsg msg c)) = timers c"
  "heartbeatTimer (after (handleLoginMsg msg c)) = heartbeatTimer c"
  "socket (after (handleLoginMsg msg c)) = socket c"
  by (simp_all add: handleLoginMsg_def split: list.splits)

lemma logError_armed [simp]: "armed (logError m c) = armed c"
  by (simp add: armed_def oneAlarm_def)

lemma handleOne_armed: "armed c \<Longrightarrow> armed (after (handleOne msg now c))"
proof -
  assume a: "armed c"
  have 1: "armed (after (handleLoginMsg msg c'))" if "armed c'" for c'
    using that by (auto intro: armed_frame [of "after (handleLoginMsg msg c')" c'])
  have 2: "armed (handleCountMsg m c')" if "armed c'" for c' m
    using that by (auto intro: armed_frame [of "handleCountMsg m c'" c'])
  have 3: "armed (handleTimeMsg m c')" if "armed c'" for c' m
    using that by (auto intro: armed_frame [of "handleTimeMsg m c'" c'])
  show ?thesis
  proof (cases "getProp msg ''type''")
    case (Inl e)
    then show ?thesis using a by (simp add: handleOne_def)
  next
    case (Inr ty)
    show ?thesis
    proof (cases "isStr ty")
      case True
      then show ?thesis
        using Inr a 1 [OF a] 2 [OF a] 3 [OF a] handleHeartbeat_armed [OF a]
        by (simp add: handleOne_def Let_def split: sum.splits)
    next
      case False
      let ?c1 = "logError ''Message received with invalid or no message type'' c"
      have c1: "armed ?c1" using a by simp
      show ?thesis
        using False Inr a 1 [OF c1] 2 [OF c1] 3 [OF c1] handleHeartbeat_armed [OF c1]
        by (simp add: handleOne_def Let_def split: sum.splits)
    qed
  qed
qed

lemma handleMsgs_armed: "armed c \<Longrightarrow> armed (after (handleMsgs msgs now c))"
proof (induction msgs arbitrary: c)
  case Nil
  then show ?case by simp
next
  case (Cons m ms)
  have k: "armed (after (handleOne m now c))"
    using Cons.prems by (rule handleOne_armed)
  show ?case
  proof (cases "handleOne m now c")
    case (Returned c1)
    then show ?thesis using k Cons.IH [of c1] by simp
  next
    case (Threw e c1)
    then show ?thesis using k by simp
  qed
qed

lemma sendServerReq_armed: "armed c \<Longrightarrow> armed (sendServerReq req ty cb c)"
  by (simp add: sendServerReq_def armed_def oneAlarm_def)

lemma thenBranch_frame:
  "timers (thenBranch req ty cb idNow pushNow c) = timers c"
  "heartbeatTimer (thenBranch req ty cb idNow pushNow c) = heartbeatTimer c"
  "socket (thenBranch req ty cb idNow pushNow c) = socket c"
  by (simp_all add: thenBranch_def Let_def logSent_def logMsg_def split: option.splits)

lemma runJob_frame:
  "timers (runJob k idNow pushNow c) = timers c"
  "heartbeatTimer (runJob k idNow pushNow c) = heartbeatTimer c"
  "socket (runJob k idNow pushNow c) = socket c"
  by (simp_all add: runJob_def Let_def thenBranch_frame split: job.splits)

lemma runJob_armed: "armed c \<Longrightarrow> armed (runJob k idNow pushNow c)"
  by (auto intro: armed_frame [of "runJob k idNow pushNow c" c] simp add: runJob_frame)

lemma pollTick_armed: "armed c \<Longrightarrow> armed (after (pollTick k c))"
  by (simp add: pollTick_def armed_def oneAlarm_def split: poller.splits)

lemma step_armed: "armed c \<Longrightarrow> keepsSession ev \<Longrightarrow> armed (step c ev)"
proof (cases ev)
  case CountRequest
  assume "armed c"
  then have "armed (c\<lparr>nextPromise := Suc (nextPromise c)\<rparr>)"
    by (simp add: armed_def oneAlarm_def)
  then show ?thesis using CountRequest by (simp add: getRequestCount_def sendServerReq_armed)
next
  case TimeRequest
  assume "armed c"
  then have "armed (c\<lparr>nextPromise := Suc (nextPromise c)\<rparr>)"
    by (simp add: armed_def oneAlarm_def)
  then show ?thesis using TimeRequest by (simp add: getTime_def sendServerReq_armed)
next
  case (RunJob k idNow pushNow)
  assume "armed c"
  then show ?thesis using RunJob by (simp add: runJob_armed)
next
  case (Poll k)
  assume "armed c"
  then show ?thesis using Poll by (simp add: pollTick_armed)
next
  case (Data msgs now)
  assume "armed c"
  then show ?thesis using Data by (simp add: handleMsgs_armed)
next
  case (Alarm t now)
  assume "armed c"
  then show ?thesis using Alarm by (simp add: fireTimer_armed)
qed simp_all

lemma run_armed: "armed c \<Longrightarrow> list_all keepsSession evs \<Longrightarrow> armed (run evs c)"
  unfolding run_def by (induction evs arbitrary: c) (simp_all add: step_armed)

text \<open>
  C5 fails on the code at this run: login at 0, welcome at 100, logout, login again at 1000.
  Neither \<open>logout\<close> nor \<open>login\<close> clears the alarm of the first login, so two alarms are
  outstanding (due 2000 and 3000). The second connection is welcomed at 1100 and receives
  its heartbeat at 1500, which re-arms its own alarm only; the first alarm falls due at
  2000 and resets the logged-in connection, after which two alarms are outstanding again,
  one of them no longer reachable through \<open>_heartbeatTimer\<close>.
\<close>

theorem login_leaves_prior_alarm:
  "timers (login 1000 (logout startup)) = [(0, 2000), (1, 3000)]
   \<and> timers relogin = [(0, 2000), (2, 3500)]
   \<and> loggedIn relogin = True
   \<and> loggedIn (after (fireTimer 0 2000 relogin)) = False
   \<and> timers (after (fireTimer 0 2000 relogin)) = [(2, 3500), (3, 4000)]
   \<and> heartbeatTimer (after (fireTimer 0 2000 relogin)) = Some 3"
  by code_simp

section \<open>Records that make the handler throw\<close>

text \<open>
  What holds for every record: a record whose type is neither welcome nor heartbeat and,
  when its type is msg, whose reply is not a string with the prefix \<open>challenge\<close>, leaves the
  table, the promises and the list of handler calls as they were, whether the handler
  returns or throws. A record of type msg calls at most one handler, that of a row whose id
  is the record's reply.
\<close>

lemma getPendingReq_Some:
  "getPendingReq k tbl = (Some h, tbl') \<Longrightarrow> \<exists>e \<in> set tbl. reqId e = k \<and> reqCallback e = h"
  by (induction tbl arbitrary: tbl') (auto split: if_splits prod.splits)

lemma uncorrelated_record_touches_nothing:
  assumes "field r ''type'' \<noteq> Str ''welcome''" and "field r ''type'' \<noteq> Str ''heartbeat''"
    and "field r ''type'' = Str ''msg'' \<Longrightarrow>
           (\<forall>k. field (field r ''msg'') ''reply'' = Str k \<longrightarrow> take 9 k \<noteq> ''challenge'')"
  shows "calls (after (handleOne r now c)) = calls c
       \<and> pendingReq (after (handleOne r now c)) = pendingReq c
       \<and> settled (after (handleOne r now c)) = settled c"
  using assms
  by (auto simp add: handleOne_def getProp_def Let_def handleCountMsg_def handleTimeMsg_def getMsgId_def split: jsval.splits)

lemma response_goes_to_matching_row:
  assumes "field r ''type'' = Str ''msg''"
  shows "calls (after (handleOne r now c)) = calls c
       \<or> (\<exists>e \<in> set (pendingReq c).
             field (field r ''msg'') ''reply'' = Str (reqId e)
           \<and> calls (after (handleOne r now c)) = calls c @ [(reqCallback e, field r ''msg'')])"
proof -
  have nn: "r \<noteq> Undefined" "r \<noteq> Null" using assms by auto
  let ?p = "field r ''msg''"
  have cnt: "calls (handleCountMsg ?p c') = calls c'
       \<or> (\<exists>e \<in> set (pendingReq c'). field ?p ''reply'' = Str (reqId e)
           \<and> calls (handleCountMsg ?p c') = calls c' @ [(reqCallback e, ?p)])" for c'
    by (auto simp add: handleCountMsg_def getMsgId_def split: jsval.splits prod.splits option.splits
        dest: getPendingReq_Some)
  have tim: "calls (handleTimeMsg ?p c') = calls c'
       \<or> (\<exists>e \<in> set (pendingReq c'). field ?p ''reply'' = Str (reqId e)
           \<and> calls (handleTimeMsg ?p c') = calls c' @ [(reqCallback e, ?p)])" for c'
    by (auto simp add: handleTimeMsg_def getMsgId_def split: jsval.splits prod.splits option.splits
        dest: getPendingReq_Some)
  show ?thesis
    using assms nn cnt [of c] tim [of c]
    by (auto simp add: handleOne_def getProp_def Let_def isStr_def)
qed

text \<open>
  C6 fails on the code at these records: a record of type msg with no inner payload (no
  reply field at all), and the record \<open>null\<close> (no discriminator). Reading \<open>response.count\<close>
  of undefined, or \<open>msg.type\<close> of null, throws a TypeError out of \<open>_handleServerMsg\<close>:
  nothing is logged for the record, and a heartbeat that follows it in the same chunk is
  not handled.
\<close>

theorem record_without_payload_throws:
  "handleOne (Obj [(''type'', Str ''msg'')]) 200 startup = Threw TypeError startup
   \<and> handleOne Null 200 startup = Threw TypeError startup
   \<and> handleMsgs [Obj [(''type'', Str ''msg'')], heartbeatMsg] 1500 startup =
       Threw TypeError startup"
  by code_simp

end
